theory Spec2Isabelle
  imports Main "HOL-Library.Sublist" "HOL-Library.Word"
begin

section \<open>The image operations of gophercloud (images.go)\<close>

text \<open>
  The file \<^verbatim>\<open>images.go\<close> holds five operations of \<^verbatim>\<open>genericServersProvider\<close>
  (\<^verbatim>\<open>ListImages\<close>, \<^verbatim>\<open>ImageById\<close>, \<^verbatim>\<open>CreateNewImage\<close>, \<^verbatim>\<open>UploadImageFile\<close>,
  \<^verbatim>\<open>DeleteImageById\<close>) and the goroutine body \<^verbatim>\<open>streamFile\<close>. Each operation is a
  closure handed to a re-authenticating wrapper. The closures talk to the outside through
  \<^verbatim>\<open>perigee\<close>, \<^verbatim>\<open>os\<close> and \<^verbatim>\<open>io\<close>; those calls are made explicit here: what the outside
  answers is a field of an environment record, and what the code does to the outside is
  appended to a trace.
\<close>

subsection \<open>Strings\<close>

text \<open>
  Go's \<^verbatim>\<open>strings.Split(s, sep)\<close> for a one-byte separator: the pieces of \<open>s\<close> between the
  occurrences of the separator, one more piece than there are separators.
\<close>

fun strings_Split :: "string \<Rightarrow> char \<Rightarrow> string list" where
  "strings_Split [] sep = [[]]"
| "strings_Split (c # cs) sep =
     (if c = sep then [] # strings_Split cs sep
      else (case strings_Split cs sep of
              [] \<Rightarrow> [[c]]
            | piece # pieces \<Rightarrow> (c # piece) # pieces))"

text \<open>
  Go's \<^verbatim>\<open>strings.HasSuffix\<close>:
  \<^verbatim>\<open>len(s) >= len(suffix) && s[len(s)-len(suffix):] == suffix\<close>.
\<close>

definition strings_HasSuffix :: "string \<Rightarrow> string \<Rightarrow> bool" where
  "strings_HasSuffix s suff =
     (length suff \<le> length s \<and> drop (length s - length suff) s = suff)"

subsection \<open>Errors\<close>

text \<open>
  Every error value the code can hand back, and the run-time panic of an index out of
  range. An error of \<^verbatim>\<open>os.Stat\<close> or \<^verbatim>\<open>os.Open\<close> is a \<^verbatim>\<open>*PathError\<close>; an
  \<^verbatim>\<open>UnexpectedStatusError\<close> is perigee's \<^verbatim>\<open>UnexpectedResponseCodeError\<close> with the
  status the server sent.
\<close>

datatype error =
    FileAccessError string
  | TransportError string
  | UnexpectedStatusError int
  | AuthError string
  | StreamCopyError string
  | LocationParseError string
  | IndexOutOfRange

text \<open>
  Lines 73-74 of \<^verbatim>\<open>CreateNewImage\<close>:
  \<^verbatim>\<open>locationArr := strings.Split(location.Path, "/")\<close> and
  \<^verbatim>\<open>locationArr[len(locationArr)-1]\<close>. Indexing an empty slice at \<open>-1\<close> panics in Go.
\<close>

definition location_id :: "string \<Rightarrow> error + string" where
  "location_id path =
     (let locationArr = strings_Split path (CHR ''/'')
      in if length locationArr = 0 then Inl IndexOutOfRange
         else Inr (locationArr ! (length locationArr - 1)))"

subsection \<open>Data carried by the requests\<close>

text \<open>
  The structs \<^verbatim>\<open>Image\<close> and \<^verbatim>\<open>NewImage\<close> of the file. The type \<^verbatim>\<open>Link\<close> is declared
  elsewhere in the package and stays a type parameter.
\<close>

record 'link Image =
  Created :: string
  Id :: string
  Links :: "'link list"
  MinDisk :: int
  MinRam :: int
  Name :: string
  Progress :: int
  Status :: string
  Updated :: string
  OsDcfDiskConfig :: string

record NewImage =
  NewName :: string
  Visibility :: string
  ContainerFormat :: string
  DiskFormat :: string
  Tags :: "string list"

type_synonym byte = "8 word"

text \<open>Go's \<^verbatim>\<open>int64\<close>, the type of \<^verbatim>\<open>fileSize\<close>: 64 bits, read with \<open>sint\<close>.\<close>

type_synonym int64 = "64 word"

text \<open>
  What \<^verbatim>\<open>perigee.Options.ReqBody\<close> holds in this file: nothing, the struct wrapping a
  \<^verbatim>\<open>NewImage\<close> (sent as JSON), or the read end of a pipe, named by the number of the pipe.
\<close>

datatype body = NoBody | JsonBody NewImage | PipeReader nat

text \<open>
  The fields of \<^verbatim>\<open>perigee.Options\<close> that the file sets. \<open>Results\<close> is the name of the one
  field of the anonymous struct that the response is decoded into (\<^verbatim>\<open>Images\<close> or
  \<^verbatim>\<open>Image\<close>); \<open>MoreHeaders\<close> is the map literal, as its list of pairs.
  \<^verbatim>\<open>CustomClient\<close> is \<^verbatim>\<open>gsp.context.httpClient\<close> in every call and is the \<open>http\<close> field
  of the environment below. \<open>Options0\<close> is Go's zero value of the struct.
\<close>

record Options =
  ReqBody :: body
  ContentType :: string
  ContentLength :: int64
  MoreHeaders :: "(string \<times> string) list"
  OkCodes :: "int list"
  Results :: "string option"

definition Options0 :: Options where
  "Options0 = \<lparr>ReqBody = NoBody, ContentType = [], ContentLength = 0, MoreHeaders = [],
     OkCodes = [], Results = None\<rparr>"

text \<open>
  The check perigee makes of a response status against \<^verbatim>\<open>OkCodes\<close>, for a list that
  is not empty: the status has to be a member.
\<close>

definition accepted_status :: "Options \<Rightarrow> int \<Rightarrow> bool" where
  "accepted_status opts code = (code \<in> set (OkCodes opts))"

record URL =
  Scheme :: string
  Host :: string
  Path :: string

datatype 'link json = Null | One "'link Image" | Many "'link Image list"

text \<open>
  A response as the file uses it: the status, what \<^verbatim>\<open>HttpResponse.Location()\<close> returns
  (the parsed URL of the \<^verbatim>\<open>Location\<close> header, or an error when the header is missing or
  malformed), and for each field name of a \<^verbatim>\<open>Results\<close> struct the value the JSON
  decoder stores there (\<open>Null\<close> when the body has no such field).
\<close>

record 'link Response =
  StatusCode :: int
  Location :: "string + URL"
  Json :: "string \<Rightarrow> 'link json"

subsection \<open>The stream producer\<close>

text \<open>
  An open file is the list of results its successive \<^verbatim>\<open>Read\<close> calls give; after the
  list, \<^verbatim>\<open>Read\<close> gives \<^verbatim>\<open>io.EOF\<close>. The write end of a pipe takes \<open>accepts\<close> writes
  before the reader closes its end (\<open>None\<close>: the reader takes every write); a write to
  a pipe whose read end is closed fails.
\<close>

datatype read_result = Data "byte list" | ReadError string

type_synonym os_File = "read_result list"

record PipeWriter =
  pipe :: nat
  accepts :: "nat option"

text \<open>What \<^verbatim>\<open>streamFile\<close> does to the outside, in the order it does it.\<close>

datatype event =
    Write "byte list"
  | SetStreamErr "error option"
  | ClosePipeWriter
  | CloseFile

text \<open>
  \<^verbatim>\<open>io.Copy(dst, src)\<close>: read until \<^verbatim>\<open>EOF\<close> or an error, writing every chunk that is not
  empty; the first write or read that fails ends the copy with that error, \<^verbatim>\<open>EOF\<close> ends
  it with \<^verbatim>\<open>nil\<close>. The result is the writes that succeeded and the error.
\<close>

fun io_Copy :: "nat option \<Rightarrow> os_File \<Rightarrow> event list \<times> error option" where
  "io_Copy dst [] = ([], None)"
| "io_Copy dst (ReadError m # src) = ([], Some (StreamCopyError m))"
| "io_Copy dst (Data buf # src) =
     (if buf = [] then io_Copy dst src
      else (case dst of
              None \<Rightarrow> (let (written, err) = io_Copy None src in (Write buf # written, err))
            | Some 0 \<Rightarrow> ([], Some (StreamCopyError ''io: read/write on closed pipe''))
            | Some (Suc k) \<Rightarrow>
                (let (written, err) = io_Copy (Some k) src in (Write buf # written, err))))"

text \<open>
  \<^verbatim>\<open>streamFile\<close> (lines 84-106). The two \<^verbatim>\<open>defer\<close> statements push on a stack that is
  run from its top when the function returns, on both return paths: the close of the
  pipe, deferred last, runs first. \<open>SetStreamErr\<close> is the assignment to \<^verbatim>\<open>*ppErr\<close>.
\<close>

definition streamFile :: "os_File \<Rightarrow> string \<Rightarrow> PipeWriter \<Rightarrow> string \<Rightarrow> event list" where
  "streamFile readFrom readFromPath writePipe formLabel =
     (let deferred = [CloseFile];
          deferred = ClosePipeWriter # deferred;
          (written, err) = io_Copy (accepts writePipe) readFrom
      in (case err of
            Some e \<Rightarrow> written @ [SetStreamErr (Some e)] @ deferred
          | None \<Rightarrow> written @ [SetStreamErr None] @ deferred))"

text \<open>
  The value of the slot \<^verbatim>\<open>streamErr\<close> after a run of events: \<^verbatim>\<open>nil\<close> at its
  declaration, then whatever was assigned last.
\<close>

fun streamErr_after :: "error option \<Rightarrow> event list \<Rightarrow> error option" where
  "streamErr_after slot [] = slot"
| "streamErr_after slot (SetStreamErr v # evs) = streamErr_after v evs"
| "streamErr_after slot (_ # evs) = streamErr_after slot evs"

text \<open>Readings of a run of events that the properties below are stated with.\<close>

fun is_Write :: "event \<Rightarrow> bool" where
  "is_Write (Write buf) = True"
| "is_Write _ = False"

fun is_SetStreamErr :: "event \<Rightarrow> bool" where
  "is_SetStreamErr (SetStreamErr v) = True"
| "is_SetStreamErr _ = False"

fun is_ClosePipeWriter :: "event \<Rightarrow> bool" where
  "is_ClosePipeWriter ClosePipeWriter = True"
| "is_ClosePipeWriter _ = False"

text \<open>\<open>all_before P Q evs\<close>: no event that satisfies \<open>P\<close> comes at or after one that satisfies \<open>Q\<close>.\<close>

fun all_before :: "(event \<Rightarrow> bool) \<Rightarrow> (event \<Rightarrow> bool) \<Rightarrow> event list \<Rightarrow> bool" where
  "all_before P Q [] = True"
| "all_before P Q (e # evs) = ((\<not> Q e \<or> \<not> list_ex P (e # evs)) \<and> all_before P Q evs)"

text \<open>
  The copy fails when some read of the file fails, or when the file has more chunks
  to write than the reader of the pipe takes.
\<close>

fun is_ReadError :: "read_result \<Rightarrow> bool" where
  "is_ReadError (ReadError m) = True"
| "is_ReadError _ = False"

definition chunks_to_write :: "os_File \<Rightarrow> nat" where
  "chunks_to_write src =
     length (filter (\<lambda>r. r \<noteq> Data []) (takeWhile (\<lambda>r. \<not> is_ReadError r) src))"

definition copy_fails :: "nat option \<Rightarrow> os_File \<Rightarrow> bool" where
  "copy_fails dst src =
     (list_ex is_ReadError src \<or> (case dst of None \<Rightarrow> False | Some k \<Rightarrow> k < chunks_to_write src))"

subsection \<open>The session, the outside and the trace\<close>

text \<open>
  What an operation does to the outside, in order: a request handed to perigee (method,
  URL, options), a refresh of the credentials (with the fresh token when it worked), a
  call of \<^verbatim>\<open>os.Stat\<close>, of \<^verbatim>\<open>os.Open\<close> (each whether or not it succeeds) or of
  \<^verbatim>\<open>io.Pipe\<close>, and the start of the goroutine that runs \<^verbatim>\<open>streamFile\<close>, with the
  events of that goroutine.
\<close>

datatype action =
    Requested string string Options
  | Refreshed "string option"
  | Statted string
  | Opened string
  | PipeCreated nat
  | Go_streamFile "event list"

text \<open>
  The session (\<^verbatim>\<open>gsp.access\<close>): the token that \<^verbatim>\<open>AuthToken()\<close> returns now, and the
  trace so far.
\<close>

record world =
  token :: string
  trace :: "action list"

definition AuthToken :: "world \<Rightarrow> string" where
  "AuthToken s = token s"

definition did :: "action list \<Rightarrow> world \<Rightarrow> world" where
  "did acts s = s\<lparr>trace := trace s @ acts\<rparr>"

text \<open>
  The outside: the endpoint of the provider (\<^verbatim>\<open>gsp.endpoint\<close>); what perigee answers
  to a request through \<^verbatim>\<open>gsp.context.httpClient\<close>; what a refresh of the credentials
  gives for the current token (an error message or the fresh token); which statuses the
  wrapper counts as a failure of authentication; what \<^verbatim>\<open>os.Stat\<close> and \<^verbatim>\<open>os.Open\<close>
  give for a path (an error message, or the size and the open file); and how many
  writes the reader of a pipe takes.
\<close>

record 'link env =
  endpoint :: string
  http :: "string \<Rightarrow> string \<Rightarrow> Options \<Rightarrow> error + 'link Response"
  reauth :: "string \<Rightarrow> string + string"
  auth_status :: "int \<Rightarrow> bool"
  os_Stat :: "string \<Rightarrow> string + int64"
  os_Open :: "string \<Rightarrow> string + os_File"
  pipe_accepts :: "nat option"

definition perigee_Request ::
  "'link env \<Rightarrow> string \<Rightarrow> string \<Rightarrow> Options \<Rightarrow> world \<Rightarrow> (error + 'link Response) \<times> world" where
  "perigee_Request env method url opts s =
     (http env method url opts, did [Requested method url opts] s)"

definition perigee_Get ::
  "'link env \<Rightarrow> string \<Rightarrow> Options \<Rightarrow> world \<Rightarrow> (error + 'link Response) \<times> world" where
  "perigee_Get env url opts s = perigee_Request env ''GET'' url opts s"

text \<open>\<^verbatim>\<open>io.Pipe()\<close>: a fresh pipe, numbered by the pipes made before it.\<close>

fun is_PipeCreated :: "action \<Rightarrow> bool" where
  "is_PipeCreated (PipeCreated n) = True"
| "is_PipeCreated _ = False"

definition io_Pipe :: "'link env \<Rightarrow> world \<Rightarrow> (body \<times> PipeWriter) \<times> world" where
  "io_Pipe env s =
     (let n = length (filter is_PipeCreated (trace s))
      in ((PipeReader n, \<lparr>pipe = n, accepts = pipe_accepts env\<rparr>), did [PipeCreated n] s))"

subsection \<open>The retry wrapper\<close>

text \<open>
  Modelled from the spec: \<^verbatim>\<open>Context.WithReauth\<close> and \<^verbatim>\<open>Context.ResponseWithReauth\<close>,
  which \<^verbatim>\<open>images.go\<close> calls and which are defined in another file of the package. The
  spec, section 4.1: run the operation once; if the result is a failure of authentication,
  refresh; if the refresh fails return its error and do not run the operation again; if
  it succeeds run the operation one more time and return what it gives; every other
  failure of the first run is returned at once. The operation and the refresh act on a
  state of any type.
\<close>

definition Execute ::
  "(error \<Rightarrow> bool) \<Rightarrow> ('s \<Rightarrow> error option \<times> 's) \<Rightarrow> ('s \<Rightarrow> (error + 'r) \<times> 's) \<Rightarrow> 's
     \<Rightarrow> (error + 'r) \<times> 's" where
  "Execute is_auth refresh op s =
     (case op s of
        (Inr r, s1) \<Rightarrow> (Inr r, s1)
      | (Inl e, s1) \<Rightarrow>
          (if is_auth e then
             (case refresh s1 of
                (Some re, s2) \<Rightarrow> (Inl re, s2)
              | (None, s2) \<Rightarrow> op s2)
           else (Inl e, s1)))"

text \<open>
  Modelled from the spec: the failure of authentication that the wrapper looks for. The
  spec, section 4.1: the server signals a status of the unauthorized or forbidden class.
  Which statuses those are is a parameter (the spec leaves it open); an error that is
  not an unexpected status is never one.
\<close>

fun is_auth_failure :: "(int \<Rightarrow> bool) \<Rightarrow> error \<Rightarrow> bool" where
  "is_auth_failure auth (UnexpectedStatusError code) = auth code"
| "is_auth_failure auth _ = False"

text \<open>
  Modelled from the spec: the refresh of the credential holder (section 2,
  \<^verbatim>\<open>Refresh() -> Result<void, AuthError>\<close>), the only step that changes the token of the
  session.
\<close>

definition Refresh :: "'link env \<Rightarrow> world \<Rightarrow> error option \<times> world" where
  "Refresh env s =
     (case reauth env (token s) of
        Inl m \<Rightarrow> (Some (AuthError m), did [Refreshed None] s)
      | Inr t \<Rightarrow> (None, did [Refreshed (Some t)] (s\<lparr>token := t\<rparr>)))"

text \<open>
  Modelled from the spec: the two entry points of the wrapper, which differ in the type
  of what the operation returns (an error alone, or a response and an error).
\<close>

definition WithReauth ::
  "'link env \<Rightarrow> (world \<Rightarrow> (error + 'r) \<times> world) \<Rightarrow> world \<Rightarrow> (error + 'r) \<times> world" where
  "WithReauth env f s = Execute (is_auth_failure (auth_status env)) (Refresh env) f s"

definition ResponseWithReauth ::
  "'link env \<Rightarrow> (world \<Rightarrow> (error + 'link Response) \<times> world) \<Rightarrow> world
     \<Rightarrow> (error + 'link Response) \<times> world" where
  "ResponseWithReauth env f s = Execute (is_auth_failure (auth_status env)) (Refresh env) f s"

text \<open>
  Counting what a call of the wrapper runs: the state is paired with the number of runs
  of the operation and the number of refreshes so far, and each run adds one.
\<close>

record 's counted =
  inner :: 's
  op_runs :: nat
  refreshes :: nat

definition counting_op ::
  "('s \<Rightarrow> (error + 'r) \<times> 's) \<Rightarrow> 's counted \<Rightarrow> (error + 'r) \<times> 's counted" where
  "counting_op op c =
     (case op (inner c) of (r, s') \<Rightarrow> (r, c\<lparr>inner := s', op_runs := Suc (op_runs c)\<rparr>))"

definition counting_refresh ::
  "('s \<Rightarrow> error option \<times> 's) \<Rightarrow> 's counted \<Rightarrow> error option \<times> 's counted" where
  "counting_refresh refresh c =
     (case refresh (inner c) of (r, s') \<Rightarrow> (r, c\<lparr>inner := s', refreshes := Suc (refreshes c)\<rparr>))"

subsection \<open>The operations of images.go\<close>

text \<open>
  Each operation is its closure (\<open>_op\<close>), run by the wrapper. A closure that fills a
  variable of the enclosing function (\<^verbatim>\<open>is\<close>) returns the value it stored; perigee
  decodes into \<^verbatim>\<open>Results\<close> only when the request succeeded, so after a failure the
  variable still has its zero value.
\<close>

definition ListImages_op :: "'link env \<Rightarrow> world \<Rightarrow> (error + 'link Image list) \<times> world" where
  "ListImages_op env s =
     (let url = (if strings_HasSuffix (endpoint env) ''v1''
                 then endpoint env @ ''/images/details''
                 else endpoint env @ ''/images'')
      in (case perigee_Get env url
                (Options0\<lparr>Results := Some ''Images'',
                   MoreHeaders := [(''X-Auth-Token'', AuthToken s)]\<rparr>) s of
            (Inl err, s') \<Rightarrow> (Inl err, s')
          | (Inr r, s') \<Rightarrow>
              (Inr (case Json r ''Images'' of Many images \<Rightarrow> images | _ \<Rightarrow> []), s')))"

definition ListImages :: "'link env \<Rightarrow> world \<Rightarrow> ('link Image list \<times> error option) \<times> world" where
  "ListImages env s =
     (case WithReauth env (ListImages_op env) s of
        (Inl err, s') \<Rightarrow> (([], Some err), s')
      | (Inr images, s') \<Rightarrow> ((images, None), s'))"



definition CreateNewImage_op ::
  "'link env \<Rightarrow> NewImage \<Rightarrow> world \<Rightarrow> (error + 'link Response) \<times> world" where
  "CreateNewImage_op env ni s =
     (let url = endpoint env @ ''/images''
      in perigee_Request env ''POST'' url
           (Options0\<lparr>ReqBody := JsonBody ni,
              MoreHeaders := [(''X-Auth-Token'', AuthToken s)],
              OkCodes := [201]\<rparr>) s)"

text \<open>
  \<^verbatim>\<open>CreateNewImage\<close> returns the id and an error; the id is the empty string whenever
  the error is set, so the pair is a sum here. The panic of an index out of range is
  the error \<open>IndexOutOfRange\<close>.
\<close>

definition CreateNewImage :: "'link env \<Rightarrow> NewImage \<Rightarrow> world \<Rightarrow> (error + string) \<times> world" where
  "CreateNewImage env ni s =
     (case ResponseWithReauth env (CreateNewImage_op env ni) s of
        (Inl err, s') \<Rightarrow> (Inl err, s')
      | (Inr response, s') \<Rightarrow>
          (case Location response of
             Inl m \<Rightarrow> (Inl (LocationParseError m), s')
           | Inr location \<Rightarrow> (location_id (Path location), s')))"

text \<open>
  The closure of \<^verbatim>\<open>UploadImageFile\<close> (lines 112-151). The goroutine started at line 137
  runs beside the request; its events are recorded as one action of the trace, and the
  slot \<^verbatim>\<open>streamErr\<close> it assigns is read nowhere in the closure.
\<close>

definition UploadImageFile_op ::
  "'link env \<Rightarrow> string \<Rightarrow> string \<Rightarrow> world \<Rightarrow> (error + 'link Response) \<times> world" where
  "UploadImageFile_op env imageId imagePath s =
     (let url = endpoint env @ ''/images/'' @ imageId @ ''/file''
      in (case os_Stat env imagePath of
            Inl m \<Rightarrow> (Inl (FileAccessError m), did [Statted imagePath] s)
          | Inr fileSize \<Rightarrow>
              (case os_Open env imagePath of
                 Inl m \<Rightarrow> (Inl (FileAccessError m), did [Statted imagePath, Opened imagePath] s)
               | Inr inFile \<Rightarrow>
                   (case io_Pipe env (did [Statted imagePath, Opened imagePath] s) of
                      ((body, writer), s1) \<Rightarrow>
                        (let s2 = did [Go_streamFile (streamFile inFile imagePath writer ''file'')] s1
                         in perigee_Request env ''PUT'' url
                              (Options0\<lparr>ReqBody := body,
                                 ContentType := ''application/octet-stream'',
                                 ContentLength := fileSize,
                                 MoreHeaders := [(''X-Auth-Token'', AuthToken s)],
                                 OkCodes := [204]\<rparr>) s2)))))"

definition UploadImageFile ::
  "'link env \<Rightarrow> string \<Rightarrow> string \<Rightarrow> world \<Rightarrow> error option \<times> world" where
  "UploadImageFile env imageId imagePath s =
     (case ResponseWithReauth env (UploadImageFile_op env imageId imagePath) s of
        (Inl err, s') \<Rightarrow> (Some err, s')
      | (Inr response, s') \<Rightarrow> (None, s'))"



subsection \<open>Readings of a trace\<close>

text \<open>The actions an operation added to the trace.\<close>

definition new_actions :: "world \<Rightarrow> world \<Rightarrow> action list" where
  "new_actions s s' = drop (length (trace s)) (trace s')"

text \<open>The requests of a run of actions, in order.\<close>

fun requests_of :: "action list \<Rightarrow> (string \<times> string \<times> Options) list" where
  "requests_of [] = []"
| "requests_of (Requested method url opts # acts) = (method, url, opts) # requests_of acts"
| "requests_of (_ # acts) = requests_of acts"


fun is_Go :: "action \<Rightarrow> bool" where
  "is_Go (Go_streamFile evs) = True"
| "is_Go _ = False"

text \<open>The slot \<^verbatim>\<open>streamErr\<close> of the last goroutine of a run of actions, \<^verbatim>\<open>nil\<close> if none ran.\<close>

fun streamErr_of :: "action list \<Rightarrow> error option" where
  "streamErr_of [] = None"
| "streamErr_of (Go_streamFile evs # acts) =
     (if list_ex is_Go acts then streamErr_of acts else streamErr_after None evs)"
| "streamErr_of (_ # acts) = streamErr_of acts"

subsection \<open>An environment for the examples\<close>

text \<open>
  A server that answers 401 to every request whose token is not \<open>fresh\<close>, and otherwise
  answers with the first status of \<^verbatim>\<open>OkCodes\<close> (200 when there is none), a
  \<^verbatim>\<open>Location\<close> of \<open>/v2/images/abc123\<close> and an empty list of images; a refresh that
  gives the token \<open>fresh\<close>; a local file with the given answer of \<^verbatim>\<open>os.Stat\<close> and the
  given reads; and a pipe whose reader takes every write.
\<close>

definition example_response :: "Options \<Rightarrow> unit Response" where
  "example_response opts =
     \<lparr>StatusCode = (case OkCodes opts of [] \<Rightarrow> 200 | code # codes \<Rightarrow> code),
      Location = Inr \<lparr>Scheme = ''http'', Host = ''host'', Path = ''/v2/images/abc123''\<rparr>,
      Json = (\<lambda>field. if field = ''Images'' then Many [] else Null)\<rparr>"

definition example_env :: "string \<Rightarrow> (string + int64) \<Rightarrow> os_File \<Rightarrow> unit env" where
  "example_env base stat file =
     \<lparr>endpoint = base,
      http = (\<lambda>method url opts.
         if map_of (MoreHeaders opts) ''X-Auth-Token'' = Some ''fresh''
         then Inr (example_response opts) else Inl (UnexpectedStatusError 401)),
      reauth = (\<lambda>t. Inr ''fresh''),
      auth_status = (\<lambda>code. code = 401),
      os_Stat = (\<lambda>path. stat),
      os_Open = (\<lambda>path. Inr file),
      pipe_accepts = None\<rparr>"

section \<open>Properties\<close>

subsection \<open>Splitting a path\<close>

lemma strings_Split_nonempty: "strings_Split s sep \<noteq> []"
  by (induction s) (auto split: list.splits)

lemma strings_Split_length:
  "length (strings_Split s sep) = Suc (length (filter (\<lambda>c. c = sep) s))"
  by (induction s) (auto split: list.splits simp: strings_Split_nonempty)

lemma strings_Split_no_sep: "sep \<notin> set s \<Longrightarrow> strings_Split s sep = [s]"
  by (induction s) auto

lemma strings_Split_two_pieces:
  "sep \<in> set s \<Longrightarrow> \<exists>p q r. strings_Split s sep = p # q # r"
proof -
  assume "sep \<in> set s"
  then have "filter (\<lambda>c. c = sep) s \<noteq> []"
    by (auto simp: filter_empty_conv)
  then have "2 \<le> length (strings_Split s sep)"
    by (cases "filter (\<lambda>c. c = sep) s") (simp_all add: strings_Split_length)
  then show ?thesis
    by (cases "strings_Split s sep" rule: remdups_adj.cases) auto
qed

lemma last_strings_Split_Cons:
  "sep \<in> set cs \<Longrightarrow> last (strings_Split (c # cs) sep) = last (strings_Split cs sep)"
  using strings_Split_two_pieces [of sep cs] by auto

lemma last_strings_Split_append:
  "sep \<notin> set ys \<Longrightarrow> last (strings_Split (xs @ sep # ys) sep) = ys"
proof (induction xs)
  case Nil
  then show ?case
    by (simp add: strings_Split_no_sep)
next
  case (Cons x xs)
  have "sep \<in> set (xs @ sep # ys)"
    by simp
  then have "last (strings_Split (x # (xs @ sep # ys)) sep) = last (strings_Split (xs @ sep # ys) sep)"
    by (rule last_strings_Split_Cons)
  with Cons show ?case
    by simp
qed

lemma location_id_last: "location_id path = Inr (last (strings_Split path (CHR ''/'')))"
  by (simp add: location_id_def Let_def strings_Split_nonempty last_conv_nth)

text \<open>
  C10: the id extraction of \<^verbatim>\<open>CreateNewImage\<close> is total. Splitting any path on \<open>/\<close>
  gives a list that is not empty, so the last element exists and the extraction returns
  an id and never the index panic; a path that ends in \<open>/\<close> gives the empty id, and a
  path with no \<open>/\<close> gives the whole path.
\<close>

theorem location_id_total:
  "strings_Split path (CHR ''/'') \<noteq> [] \<and>
   (\<exists>ident. location_id path = Inr ident) \<and>
   location_id (pre @ ''/'') = Inr [] \<and>
   (CHR ''/'' \<notin> set path \<longrightarrow> location_id path = Inr path)"
  using last_strings_Split_append [of "CHR ''/''" "[]" pre]
  by (simp add: strings_Split_nonempty location_id_last strings_Split_no_sep)

theorem location_id_total_witness:
  "CHR ''/'' \<notin> set ''abc123'' \<and> location_id ''abc123'' = Inr ''abc123'' \<and>
   location_id ''/v2/images/'' = Inr []"
  using location_id_total [of "''abc123''" "''/v2/images''"]
  by simp

subsection \<open>Traces\<close>

lemma trace_did: "trace (did acts s) = trace s @ acts"
  by (simp add: did_def)

lemma token_did: "token (did acts s) = token s"
  by (simp add: did_def)

lemma new_actions_append: "trace s' = trace s @ acts \<Longrightarrow> new_actions s s' = acts"
  by (simp add: new_actions_def)

lemma requests_of_append: "requests_of (xs @ ys) = requests_of xs @ requests_of ys"
  by (induction xs rule: requests_of.induct) auto

subsection \<open>The retry wrapper\<close>

text \<open>The three ways a call of the wrapper can go.\<close>

lemma Execute_cases:
  assumes "Execute is_auth refresh op s = (r, s')"
  obtains
    (once) "op s = (r, s')" "\<And>e. r = Inl e \<Longrightarrow> \<not> is_auth e"
  | (refresh_failed) e s1 re where "op s = (Inl e, s1)" "is_auth e"
      "refresh s1 = (Some re, s')" "r = Inl re"
  | (twice) e s1 s2 where "op s = (Inl e, s1)" "is_auth e"
      "refresh s1 = (None, s2)" "op s2 = (r, s')"
  using assms unfolding Execute_def
  by (auto split: prod.splits sum.splits if_splits option.splits)

lemma Refresh_trace:
  "Refresh env s = (r, s') \<Longrightarrow>
     (\<exists>m. r = Some (AuthError m) \<and> trace s' = trace s @ [Refreshed None] \<and> token s' = token s) \<or>
     (r = None \<and> trace s' = trace s @ [Refreshed (Some (token s'))])"
  unfolding Refresh_def by (auto split: sum.splits simp: trace_did token_did did_def)

text \<open>
  The wrapper over the session: what it adds to the trace, for an operation that only
  appends to the trace and leaves the token alone.
\<close>

lemma wrapper_runs:
  assumes run: "Execute (is_auth_failure auth) (Refresh env) f s = (r, s')"
    and app: "\<And>s. \<exists>acts. trace (snd (f s)) = trace s @ acts"
    and tok: "\<And>s. token (snd (f s)) = token s"
  obtains
    (once) "f s = (r, s')" "token s' = token s"
  | (refresh_failed) e s1 m where "f s = (Inl e, s1)" "is_auth_failure auth e"
      "r = Inl (AuthError m)" "new_actions s s' = new_actions s s1 @ [Refreshed None]"
  | (twice) e s1 s2 where "f s = (Inl e, s1)" "is_auth_failure auth e" "f s2 = (r, s')"
      "new_actions s s' = new_actions s s1 @ [Refreshed (Some (token s2))] @ new_actions s2 s'"
using run
proof (cases rule: Execute_cases)
  case once
  from tok [of s] once(1) have "token s' = token s"
    by simp
  with once(1) show ?thesis
    by (rule that(1))
next
  case (refresh_failed e s1 re)
  from app [of s] refresh_failed(1) obtain a1 where t1: "trace s1 = trace s @ a1"
    by auto
  from Refresh_trace [OF refresh_failed(3)] obtain m
    where "re = AuthError m" "trace s' = trace s1 @ [Refreshed None]"
    by auto
  with t1 refresh_failed show ?thesis
    by (intro that(2) [of e s1 m]) (simp_all add: new_actions_def)
next
  case (twice e s1 s2)
  from app [of s] twice(1) obtain a1 where t1: "trace s1 = trace s @ a1"
    by auto
  from Refresh_trace [OF twice(3)] have t2: "trace s2 = trace s1 @ [Refreshed (Some (token s2))]"
    by auto
  from app [of s2] twice(4) obtain a2 where "trace s' = trace s2 @ a2"
    by auto
  with t1 t2 have "new_actions s s' = new_actions s s1 @ [Refreshed (Some (token s2))] @ new_actions s2 s'"
    by (simp add: new_actions_def)
  with twice show ?thesis
    by (intro that(3) [of e s1 s2]) simp_all
qed

lemma wrapper_requests:
  assumes run: "Execute (is_auth_failure auth) (Refresh env) f s = (r, s')"
    and app: "\<And>s. \<exists>acts. trace (snd (f s)) = trace s @ acts"
    and tok: "\<And>s. token (snd (f s)) = token s"
    and P: "\<And>s. list_all P (requests_of (new_actions s (snd (f s)))) \<and>
              requests_of (new_actions s (snd (f s))) \<noteq> []"
  shows "list_all P (requests_of (new_actions s s')) \<and> requests_of (new_actions s s') \<noteq> []"
using run app tok
proof (cases rule: wrapper_runs)
  case once
  with P [of s] show ?thesis
    by simp
next
  case (refresh_failed e s1 m)
  with P [of s] show ?thesis
    by (simp add: requests_of_append)
next
  case (twice e s1 s2)
  with P [of s] P [of s2] show ?thesis
    by (simp add: requests_of_append)
qed



lemma counting_op_eq:
  "op (inner c) = (r, s') \<Longrightarrow>
     counting_op op c = (r, c\<lparr>inner := s', op_runs := Suc (op_runs c)\<rparr>)"
  by (simp add: counting_op_def)

lemma counting_refresh_eq:
  "refresh (inner c) = (r, s') \<Longrightarrow>
     counting_refresh refresh c = (r, c\<lparr>inner := s', refreshes := Suc (refreshes c)\<rparr>)"
  by (simp add: counting_refresh_def)

text \<open>
  C8: a call of the wrapper runs the operation at most twice and refreshes at most once.
  When the first run fails with a failure of authentication and the refresh succeeds,
  the operation runs exactly twice and the wrapper returns what the second run gives;
  when the refresh fails, the operation has run exactly once and the wrapper returns the
  error of the refresh. The counted call returns what the plain call returns.
\<close>

theorem Execute_retry_once:
  assumes "Execute is_auth (counting_refresh refresh) (counting_op op) c = (r, c')"
  shows "Execute is_auth refresh op (inner c) = (r, inner c') \<and>
    op_runs c' \<le> op_runs c + 2 \<and> refreshes c' \<le> refreshes c + 1 \<and>
    (\<forall>e s1 s2. op (inner c) = (Inl e, s1) \<and> is_auth e \<and> refresh s1 = (None, s2) \<longrightarrow>
       op_runs c' = op_runs c + 2 \<and> refreshes c' = refreshes c + 1 \<and> op s2 = (r, inner c')) \<and>
    (\<forall>e s1 re s2. op (inner c) = (Inl e, s1) \<and> is_auth e \<and> refresh s1 = (Some re, s2) \<longrightarrow>
       op_runs c' = op_runs c + 1 \<and> refreshes c' = refreshes c + 1 \<and> r = Inl re \<and> inner c' = s2)"
proof (cases "op (inner c)")
  case first: (Pair r1 s1)
  have run1: "counting_op op c = (r1, c\<lparr>inner := s1, op_runs := Suc (op_runs c)\<rparr>)"
    using first by (rule counting_op_eq)
  show ?thesis
  proof (cases r1)
    case (Inr v)
    with assms first run1 show ?thesis
      by (auto simp: Execute_def)
  next
    case (Inl e)
    show ?thesis
    proof (cases "is_auth e")
      case False
      with assms first run1 Inl show ?thesis
        by (auto simp: Execute_def)
    next
      case True
      obtain rr s2 where rf: "refresh s1 = (rr, s2)"
        by (cases "refresh s1")
      let ?c1 = "c\<lparr>inner := s1, op_runs := Suc (op_runs c)\<rparr>"
      have rf': "counting_refresh refresh ?c1 = (rr, ?c1\<lparr>inner := s2, refreshes := Suc (refreshes ?c1)\<rparr>)"
        by (rule counting_refresh_eq) (simp add: rf)
      show ?thesis
      proof (cases rr)
        case (Some re)
        with assms first run1 Inl True rf rf' show ?thesis
          by (auto simp: Execute_def)
      next
        case None
        let ?c2 = "?c1\<lparr>inner := s2, refreshes := Suc (refreshes ?c1)\<rparr>"
        obtain r2 s3 where second: "op s2 = (r2, s3)"
          by (cases "op s2")
        have run2: "counting_op op ?c2 = (r2, ?c2\<lparr>inner := s3, op_runs := Suc (op_runs ?c2)\<rparr>)"
          by (rule counting_op_eq) (simp add: second)
        from assms first run1 Inl True rf rf' None second run2 show ?thesis
          by (auto simp: Execute_def)
      qed
    qed
  qed
qed

theorem Execute_retry_once_witness:
  "Execute (is_auth_failure (\<lambda>code. code = 401))
      (counting_refresh (\<lambda>s::nat. (None, Suc s)))
      (counting_op (\<lambda>s. if s = 0 then (Inl (UnexpectedStatusError 401), s) else (Inr s, s)))
      \<lparr>inner = 0, op_runs = 0, refreshes = 0\<rparr>
     = (Inr (1::nat), \<lparr>inner = 1, op_runs = 2, refreshes = 1\<rparr>) \<and>
   Execute (is_auth_failure (\<lambda>code. code = 401))
      (\<lambda>s::nat. (None, Suc s))
      (\<lambda>s. if s = 0 then (Inl (UnexpectedStatusError 401), s) else (Inr s, s)) 0
     = (Inr (1::nat), 1) \<and>
   Execute (is_auth_failure (\<lambda>code. code = 401))
      (counting_refresh (\<lambda>s::nat. (Some (AuthError ''denied''), s)))
      (counting_op (\<lambda>s. if s = 0 then (Inl (UnexpectedStatusError 401), s) else (Inr s, s)))
      \<lparr>inner = 0, op_runs = 0, refreshes = 0\<rparr>
     = (Inl (AuthError ''denied''), \<lparr>inner = 0, op_runs = 1, refreshes = 1\<rparr>) \<and>
   Execute (is_auth_failure (\<lambda>code. code = 401))
      (\<lambda>s::nat. (Some (AuthError ''denied''), s))
      (\<lambda>s. if s = 0 then (Inl (UnexpectedStatusError 401), s) else (Inr s, s)) 0
     = (Inl (AuthError ''denied''), 0)"
proof -
  have retried: "Execute (is_auth_failure (\<lambda>code. code = 401))
      (counting_refresh (\<lambda>s::nat. (None, Suc s)))
      (counting_op (\<lambda>s. if s = 0 then (Inl (UnexpectedStatusError 401), s) else (Inr s, s)))
      \<lparr>inner = 0, op_runs = 0, refreshes = 0\<rparr>
     = (Inr (1::nat), \<lparr>inner = 1, op_runs = 2, refreshes = 1\<rparr>)"
    by (simp add: Execute_def counting_refresh_def counting_op_def)
  have denied: "Execute (is_auth_failure (\<lambda>code. code = 401))
      (counting_refresh (\<lambda>s::nat. (Some (AuthError ''denied''), s)))
      (counting_op (\<lambda>s. if s = 0 then (Inl (UnexpectedStatusError 401), s) else (Inr s, s)))
      \<lparr>inner = 0, op_runs = 0, refreshes = 0\<rparr>
     = (Inl (AuthError ''denied''), \<lparr>inner = 0, op_runs = 1, refreshes = 1\<rparr>)"
    by (simp add: Execute_def counting_refresh_def counting_op_def)
  from Execute_retry_once [OF retried] Execute_retry_once [OF denied] retried denied
  show ?thesis
    by simp
qed

subsection \<open>The stream producer\<close>

lemma io_Copy_writes: "list_all is_Write (fst (io_Copy dst src))"
  by (induction dst src rule: io_Copy.induct) (auto split: option.splits nat.splits prod.splits)

lemma chunks_to_write_simps:
  "chunks_to_write [] = 0"
  "chunks_to_write (ReadError m # src) = 0"
  "chunks_to_write (Data buf # src) = (if buf = [] then 0 else 1) + chunks_to_write src"
  by (simp_all add: chunks_to_write_def)

lemma io_Copy_fails_iff: "snd (io_Copy dst src) \<noteq> None \<longleftrightarrow> copy_fails dst src"
  by (induction dst src rule: io_Copy.induct)
     (auto simp: copy_fails_def chunks_to_write_simps split: option.splits nat.splits prod.splits)

text \<open>Both return paths of \<^verbatim>\<open>streamFile\<close> give the same shape of run.\<close>

lemma streamFile_shape:
  "streamFile readFrom readFromPath writePipe formLabel =
     fst (io_Copy (accepts writePipe) readFrom) @
       [SetStreamErr (snd (io_Copy (accepts writePipe) readFrom)), ClosePipeWriter, CloseFile]"
  by (auto simp: streamFile_def Let_def split: prod.splits option.splits)

lemma writes_then:
  "list_all is_Write ws \<Longrightarrow>
     count_list (ws @ [SetStreamErr v, ClosePipeWriter, CloseFile]) CloseFile = 1 \<and>
     count_list (ws @ [SetStreamErr v, ClosePipeWriter, CloseFile]) ClosePipeWriter = 1 \<and>
     filter is_SetStreamErr (ws @ [SetStreamErr v, ClosePipeWriter, CloseFile]) = [SetStreamErr v] \<and>
     streamErr_after slot (ws @ [SetStreamErr v, ClosePipeWriter, CloseFile]) = v"
proof (induction ws)
  case Nil
  show ?case by simp
next
  case (Cons w ws)
  then show ?case by (cases w) simp_all
qed

lemma writes_then_order:
  "list_all is_Write ws \<Longrightarrow>
     all_before is_Write is_ClosePipeWriter (ws @ [SetStreamErr v, ClosePipeWriter, CloseFile]) \<and>
     all_before is_SetStreamErr is_ClosePipeWriter (ws @ [SetStreamErr v, ClosePipeWriter, CloseFile])"
proof (induction ws)
  case Nil
  show ?case by simp
next
  case (Cons w ws)
  then show ?case by (cases w) simp_all
qed

text \<open>
  C2: in every run of \<^verbatim>\<open>streamFile\<close>, whether the copy succeeds or fails, the file is
  closed once and the write end of the pipe is closed once before the function returns,
  and the slot is assigned exactly once, with a value that is not \<^verbatim>\<open>nil\<close> if and only
  if the copy from the file to the pipe failed.
\<close>

theorem streamFile_closes_and_reports:
  "count_list (streamFile readFrom readFromPath writePipe formLabel) CloseFile = 1 \<and>
   count_list (streamFile readFrom readFromPath writePipe formLabel) ClosePipeWriter = 1 \<and>
   (\<exists>v. filter is_SetStreamErr (streamFile readFrom readFromPath writePipe formLabel)
          = [SetStreamErr v] \<and>
        streamErr_after None (streamFile readFrom readFromPath writePipe formLabel) = v \<and>
        (v \<noteq> None \<longleftrightarrow> copy_fails (accepts writePipe) readFrom))"
  using writes_then [OF io_Copy_writes, of "accepts writePipe" readFrom
      "snd (io_Copy (accepts writePipe) readFrom)" None]
    io_Copy_fails_iff [of "accepts writePipe" readFrom]
  by (simp only: streamFile_shape) blast

theorem streamFile_closes_and_reports_witness:
  "copy_fails (Some 1) [Data [1, 2], Data [3]] \<and>
   streamErr_after None
     (streamFile [Data [1, 2], Data [3]] ''img'' \<lparr>pipe = 0, accepts = Some 1\<rparr> ''file'') \<noteq> None \<and>
   \<not> copy_fails None [Data [1, 2], Data [3]] \<and>
   streamErr_after None
     (streamFile [Data [1, 2], Data [3]] ''img'' \<lparr>pipe = 0, accepts = None\<rparr> ''file'') = None"
  using streamFile_closes_and_reports
      [of "[Data [1, 2], Data [3]]" "''img''" "\<lparr>pipe = 0, accepts = Some 1\<rparr>" "''file''"]
    streamFile_closes_and_reports
      [of "[Data [1, 2], Data [3]]" "''img''" "\<lparr>pipe = 0, accepts = None\<rparr>" "''file''"]
  by (simp add: copy_fails_def chunks_to_write_def)

text \<open>
  C3, as the code has it: in every run of \<^verbatim>\<open>streamFile\<close> the write end of the pipe is
  closed after the last write that succeeded and after the slot has been assigned (the
  close is deferred, so it runs when the function returns, and the assignment is in the
  body); both the assignment and the close happen.
\<close>

theorem streamFile_order:
  "all_before is_Write is_ClosePipeWriter
     (streamFile readFrom readFromPath writePipe formLabel) \<and>
   all_before is_SetStreamErr is_ClosePipeWriter
     (streamFile readFrom readFromPath writePipe formLabel) \<and>
   list_ex is_SetStreamErr (streamFile readFrom readFromPath writePipe formLabel) \<and>
   list_ex is_ClosePipeWriter (streamFile readFrom readFromPath writePipe formLabel)"
  using writes_then_order [OF io_Copy_writes, of "accepts writePipe" readFrom
      "snd (io_Copy (accepts writePipe) readFrom)"]
  by (simp add: streamFile_shape)

theorem streamFile_order_witness:
  "streamFile [Data [1, 2], Data [3]] ''img'' \<lparr>pipe = 0, accepts = None\<rparr> ''file'' =
     [Write [1, 2], Write [3], SetStreamErr None, ClosePipeWriter, CloseFile] \<and>
   all_before is_SetStreamErr is_ClosePipeWriter
     [Write [1, 2], Write [3], SetStreamErr None, ClosePipeWriter, CloseFile]"
  using streamFile_order
      [of "[Data [1, 2], Data [3]]" "''img''" "\<lparr>pipe = 0, accepts = None\<rparr>" "''file''"]
  by (simp add: streamFile_def)

text \<open>
  C3 as the spec states it (the close of the sink after the last write and before the
  slot is populated) fails on a file of two chunks that is copied without error: the slot
  is assigned before the pipe is closed.
\<close>

theorem streamFile_close_not_before_slot:
  "\<not> (all_before is_Write is_ClosePipeWriter
        (streamFile [Data [1, 2], Data [3]] ''img'' \<lparr>pipe = 0, accepts = None\<rparr> ''file'') \<and>
      all_before is_ClosePipeWriter is_SetStreamErr
        (streamFile [Data [1, 2], Data [3]] ''img'' \<lparr>pipe = 0, accepts = None\<rparr> ''file''))"
  by (simp add: streamFile_def)

subsection \<open>What each closure does\<close>

lemma strings_HasSuffix_iff: "strings_HasSuffix s suff \<longleftrightarrow> suffix suff s"
proof
  assume "strings_HasSuffix s suff"
  then have "s = take (length s - length suff) s @ suff"
    unfolding strings_HasSuffix_def by (metis append_take_drop_id)
  then show "suffix suff s"
    by (rule suffixI)
next
  assume "suffix suff s"
  then obtain zs where "s = zs @ suff"
    by (rule suffixE)
  then show "strings_HasSuffix s suff"
    by (simp add: strings_HasSuffix_def)
qed

lemma perigee_Request_trace:
  "perigee_Request env method url opts s = (r, s') \<Longrightarrow>
     r = http env method url opts \<and> trace s' = trace s @ [Requested method url opts] \<and>
     token s' = token s"
  by (auto simp: perigee_Request_def trace_did token_did)

lemma ListImages_op_new:
  "trace (snd (ListImages_op env s)) = trace s @
     [Requested ''GET''
        (endpoint env @ (if suffix ''v1'' (endpoint env) then ''/images/details'' else ''/images''))
        (Options0\<lparr>Results := Some ''Images'', MoreHeaders := [(''X-Auth-Token'', token s)]\<rparr>)] \<and>
   token (snd (ListImages_op env s)) = token s"
  by (auto simp: Let_def ListImages_op_def perigee_Get_def perigee_Request_def trace_did token_did
      AuthToken_def strings_HasSuffix_iff split: sum.splits)



lemma CreateNewImage_op_new:
  "trace (snd (CreateNewImage_op env ni s)) = trace s @
     [Requested ''POST'' (endpoint env @ ''/images'')
        (Options0\<lparr>ReqBody := JsonBody ni, MoreHeaders := [(''X-Auth-Token'', token s)],
           OkCodes := [201]\<rparr>)] \<and>
   token (snd (CreateNewImage_op env ni s)) = token s"
  by (auto simp: Let_def CreateNewImage_op_def perigee_Request_def trace_did token_did AuthToken_def)

lemma UploadImageFile_op_new:
  "trace (snd (UploadImageFile_op env imageId imagePath s)) = trace s @
     (case os_Stat env imagePath of
        Inl m \<Rightarrow> [Statted imagePath]
      | Inr fileSize \<Rightarrow>
          (case os_Open env imagePath of
             Inl m \<Rightarrow> [Statted imagePath, Opened imagePath]
           | Inr inFile \<Rightarrow>
               [Statted imagePath, Opened imagePath,
                PipeCreated (length (filter is_PipeCreated (trace s))),
                Go_streamFile (streamFile inFile imagePath
                  \<lparr>pipe = length (filter is_PipeCreated (trace s)),
                     accepts = pipe_accepts env\<rparr> ''file''),
                Requested ''PUT'' (endpoint env @ ''/images/'' @ imageId @ ''/file'')
                  (Options0\<lparr>ReqBody := PipeReader (length (filter is_PipeCreated (trace s))),
                     ContentType := ''application/octet-stream'',
                     ContentLength := fileSize,
                     MoreHeaders := [(''X-Auth-Token'', token s)],
                     OkCodes := [204]\<rparr>)])) \<and>
   token (snd (UploadImageFile_op env imageId imagePath s)) = token s"
  by (simp add: UploadImageFile_op_def io_Pipe_def perigee_Request_def
      trace_did token_did Let_def AuthToken_def split: sum.splits)

subsection \<open>The operations\<close>

lemmas example_defs = example_env_def example_response_def ResponseWithReauth_def
  WithReauth_def Execute_def Refresh_def perigee_Request_def perigee_Get_def io_Pipe_def
  did_def Let_def Options0_def AuthToken_def new_actions_def

lemma snd_ListImages: "snd (ListImages env s) = snd (WithReauth env (ListImages_op env) s)"
  by (simp add: ListImages_def split: prod.splits sum.splits)



lemma snd_CreateNewImage:
  "snd (CreateNewImage env ni s) = snd (ResponseWithReauth env (CreateNewImage_op env ni) s)"
  by (simp add: CreateNewImage_def split: prod.splits sum.splits)

lemma snd_UploadImageFile:
  "snd (UploadImageFile env imageId imagePath s) =
     snd (ResponseWithReauth env (UploadImageFile_op env imageId imagePath) s)"
  by (simp add: UploadImageFile_def split: prod.splits sum.splits)

text \<open>
  C7: when \<^verbatim>\<open>os.Stat\<close> of the local file fails, \<^verbatim>\<open>UploadImageFile\<close> returns that
  file-access error at once: the only thing it did is the stat, so no file is opened, no
  pipe is made, no producer is started and no request is attempted (and the wrapper does
  not refresh or run the closure again).
\<close>

theorem UploadImageFile_stat_fails:
  assumes "os_Stat env imagePath = Inl m"
  shows "fst (UploadImageFile env imageId imagePath s) = Some (FileAccessError m) \<and>
    new_actions s (snd (UploadImageFile env imageId imagePath s)) = [Statted imagePath] \<and>
    requests_of (new_actions s (snd (UploadImageFile env imageId imagePath s))) = [] \<and>
    \<not> list_ex is_Go (new_actions s (snd (UploadImageFile env imageId imagePath s))) \<and>
    \<not> list_ex is_PipeCreated (new_actions s (snd (UploadImageFile env imageId imagePath s))) \<and>
    Opened imagePath \<notin> set (new_actions s (snd (UploadImageFile env imageId imagePath s)))"
proof -
  have "UploadImageFile_op env imageId imagePath s =
      (Inl (FileAccessError m), did [Statted imagePath] s)"
    using assms by (simp add: UploadImageFile_op_def)
  then have "UploadImageFile env imageId imagePath s =
      (Some (FileAccessError m), did [Statted imagePath] s)"
    by (simp add: UploadImageFile_def ResponseWithReauth_def Execute_def)
  then show ?thesis
    by (simp add: new_actions_def trace_did)
qed

text \<open>
  C4: for every image id and every local file that can be statted and opened,
  \<^verbatim>\<open>UploadImageFile\<close> issues at least one request, and every request it issues is a
  \<^verbatim>\<open>PUT\<close> to \<open>endpoint/images/id/file\<close> whose body is the read end of a pipe, whose
  declared content length is the size that the stat gave, whose content type is
  \<open>application/octet-stream\<close>, and whose only accepted status is 204. The closure makes
  the pipe, starts \<^verbatim>\<open>streamFile\<close> on its write end and hands its read end to the request.
\<close>

theorem UploadImageFile_request:
  assumes "os_Stat env imagePath = Inr fileSize" and "os_Open env imagePath = Inr inFile"
  shows "requests_of (new_actions s (snd (UploadImageFile env imageId imagePath s))) \<noteq> [] \<and>
    list_all (\<lambda>(method, url, opts).
        method = ''PUT'' \<and> url = endpoint env @ ''/images/'' @ imageId @ ''/file'' \<and>
        (\<exists>n. ReqBody opts = PipeReader n) \<and>
        ContentLength opts = fileSize \<and>
        ContentType opts = ''application/octet-stream'' \<and>
        OkCodes opts = [204] \<and> (\<forall>code. accepted_status opts code \<longleftrightarrow> code = 204))
      (requests_of (new_actions s (snd (UploadImageFile env imageId imagePath s)))) \<and>
    UploadImageFile_op env imageId imagePath s =
      (http env ''PUT'' (endpoint env @ ''/images/'' @ imageId @ ''/file'')
         (Options0\<lparr>ReqBody := PipeReader (length (filter is_PipeCreated (trace s))),
            ContentType := ''application/octet-stream'', ContentLength := fileSize,
            MoreHeaders := [(''X-Auth-Token'', token s)], OkCodes := [204]\<rparr>),
       did [Statted imagePath, Opened imagePath,
            PipeCreated (length (filter is_PipeCreated (trace s))),
            Go_streamFile (streamFile inFile imagePath
              \<lparr>pipe = length (filter is_PipeCreated (trace s)), accepts = pipe_accepts env\<rparr>
              ''file''),
            Requested ''PUT'' (endpoint env @ ''/images/'' @ imageId @ ''/file'')
              (Options0\<lparr>ReqBody := PipeReader (length (filter is_PipeCreated (trace s))),
                 ContentType := ''application/octet-stream'', ContentLength := fileSize,
                 MoreHeaders := [(''X-Auth-Token'', token s)], OkCodes := [204]\<rparr>)] s)"
proof -
  let ?P = "\<lambda>(method, url, opts).
        method = ''PUT'' \<and> url = endpoint env @ ''/images/'' @ imageId @ ''/file'' \<and>
        (\<exists>n. ReqBody opts = PipeReader n) \<and>
        ContentLength opts = fileSize \<and>
        ContentType opts = ''application/octet-stream'' \<and>
        OkCodes opts = [204] \<and> (\<forall>code. accepted_status opts code \<longleftrightarrow> code = 204)"
  let ?f = "UploadImageFile_op env imageId imagePath"
  obtain r s' where run: "ResponseWithReauth env ?f s = (r, s')"
    by (cases "ResponseWithReauth env ?f s")
  have app: "\<And>s. \<exists>acts. trace (snd (?f s)) = trace s @ acts"
    using UploadImageFile_op_new by blast
  have tok: "\<And>s. token (snd (?f s)) = token s"
    by (simp add: UploadImageFile_op_new)
  have P: "\<And>s. list_all ?P (requests_of (new_actions s (snd (?f s)))) \<and>
      requests_of (new_actions s (snd (?f s))) \<noteq> []"
    using assms
    by (simp add: new_actions_append [OF conjunct1 [OF UploadImageFile_op_new]]
        Options0_def accepted_status_def)
  from wrapper_requests [OF run [unfolded ResponseWithReauth_def] app tok P]
  have "list_all ?P (requests_of (new_actions s s')) \<and> requests_of (new_actions s s') \<noteq> []" .
  moreover have "snd (UploadImageFile env imageId imagePath s) = s'"
    using run by (simp add: snd_UploadImageFile)
  moreover have "UploadImageFile_op env imageId imagePath s =
      (http env ''PUT'' (endpoint env @ ''/images/'' @ imageId @ ''/file'')
         (Options0\<lparr>ReqBody := PipeReader (length (filter is_PipeCreated (trace s))),
            ContentType := ''application/octet-stream'', ContentLength := fileSize,
            MoreHeaders := [(''X-Auth-Token'', token s)], OkCodes := [204]\<rparr>),
       did [Statted imagePath, Opened imagePath,
            PipeCreated (length (filter is_PipeCreated (trace s))),
            Go_streamFile (streamFile inFile imagePath
              \<lparr>pipe = length (filter is_PipeCreated (trace s)), accepts = pipe_accepts env\<rparr>
              ''file''),
            Requested ''PUT'' (endpoint env @ ''/images/'' @ imageId @ ''/file'')
              (Options0\<lparr>ReqBody := PipeReader (length (filter is_PipeCreated (trace s))),
                 ContentType := ''application/octet-stream'', ContentLength := fileSize,
                 MoreHeaders := [(''X-Auth-Token'', token s)], OkCodes := [204]\<rparr>)] s)"
    using assms
    by (simp add: UploadImageFile_op_def io_Pipe_def perigee_Request_def Let_def did_def
        AuthToken_def)
  ultimately show ?thesis
    by simp
qed


text \<open>
  C1 asks that a failed copy is surfaced by \<^verbatim>\<open>UploadImageFile\<close>. The code at a file of
  three bytes whose stat says 3, whose first read gives the three bytes and whose next
  read fails, against a server that answers 204: the goroutine stores the copy error in
  \<^verbatim>\<open>streamErr\<close>, and \<^verbatim>\<open>UploadImageFile\<close> returns no error.
\<close>

theorem UploadImageFile_drops_copy_error:
  "fst (UploadImageFile
          (example_env ''http://host/v2'' (Inr 3) [Data [1, 2, 3], ReadError ''input/output error''])
          ''abc123'' ''/tmp/img'' \<lparr>token = ''fresh'', trace = []\<rparr>) = None \<and>
   streamErr_of (trace (snd (UploadImageFile
          (example_env ''http://host/v2'' (Inr 3) [Data [1, 2, 3], ReadError ''input/output error''])
          ''abc123'' ''/tmp/img'' \<lparr>token = ''fresh'', trace = []\<rparr>)))
     = Some (StreamCopyError ''input/output error'')"
  by (simp add: UploadImageFile_def ResponseWithReauth_def Execute_def UploadImageFile_op_def
      example_env_def example_response_def io_Pipe_def perigee_Request_def did_def Let_def
      Options0_def AuthToken_def streamFile_def)


lemma ListImages_op_result:
  assumes "ListImages_op env s = (Inr images, s')"
  shows "\<exists>opts r. Results opts = Some ''Images'' \<and>
       http env ''GET''
         (endpoint env @ (if suffix ''v1'' (endpoint env) then ''/images/details'' else ''/images''))
         opts = Inr r \<and>
       images = (case Json r ''Images'' of Many l \<Rightarrow> l | _ \<Rightarrow> [])"
proof -
  let ?opts = "Options0\<lparr>Results := Some ''Images'',
      MoreHeaders := [(''X-Auth-Token'', AuthToken s)]\<rparr>"
  let ?url = "endpoint env @
      (if suffix ''v1'' (endpoint env) then ''/images/details'' else ''/images'')"
  from assms obtain r where "http env ''GET'' ?url ?opts = Inr r"
      and "images = (case Json r ''Images'' of Many l \<Rightarrow> l | _ \<Rightarrow> [])"
    by (auto simp: Let_def ListImages_op_def perigee_Get_def perigee_Request_def
        strings_HasSuffix_iff split: sum.splits if_splits)
  moreover have "Results ?opts = Some ''Images''"
    by simp
  ultimately show ?thesis
    by blast
qed

text \<open>
  C6: for every endpoint, \<^verbatim>\<open>ListImages\<close> issues at least one request, and every request
  it issues is a \<^verbatim>\<open>GET\<close> whose URL is the endpoint followed by \<open>/images/details\<close>
  exactly when the endpoint ends in \<open>v1\<close>, and the endpoint followed by \<open>/images\<close>
  exactly when it does not, with the \<^verbatim>\<open>Images\<close> field as the target of decoding; a list
  returned without error is the value decoded for the \<^verbatim>\<open>Images\<close> field of a response
  to that \<^verbatim>\<open>GET\<close>.
\<close>

theorem ListImages_request:
  "requests_of (new_actions s (snd (ListImages env s))) \<noteq> [] \<and>
   list_all (\<lambda>(method, url, opts).
       method = ''GET'' \<and>
       (url = endpoint env @ ''/images/details'' \<longleftrightarrow> suffix ''v1'' (endpoint env)) \<and>
       (url = endpoint env @ ''/images'' \<longleftrightarrow> \<not> suffix ''v1'' (endpoint env)) \<and>
       Results opts = Some ''Images'')
     (requests_of (new_actions s (snd (ListImages env s)))) \<and>
   (\<forall>images. fst (ListImages env s) = (images, None) \<longrightarrow>
      (\<exists>opts r. Results opts = Some ''Images'' \<and>
         http env ''GET''
           (endpoint env @ (if suffix ''v1'' (endpoint env) then ''/images/details'' else ''/images''))
           opts = Inr r \<and>
         images = (case Json r ''Images'' of Many l \<Rightarrow> l | _ \<Rightarrow> [])))"
proof -
  let ?P = "\<lambda>(method, url, opts).
       method = ''GET'' \<and>
       (url = endpoint env @ ''/images/details'' \<longleftrightarrow> suffix ''v1'' (endpoint env)) \<and>
       (url = endpoint env @ ''/images'' \<longleftrightarrow> \<not> suffix ''v1'' (endpoint env)) \<and>
       Results opts = Some ''Images''"
  let ?f = "ListImages_op env"
  obtain r s' where run: "WithReauth env ?f s = (r, s')"
    by (cases "WithReauth env ?f s")
  note run' = run [unfolded WithReauth_def]
  have app: "\<And>s. \<exists>acts. trace (snd (?f s)) = trace s @ acts"
    using ListImages_op_new by blast
  have tok: "\<And>s. token (snd (?f s)) = token s"
    by (simp add: ListImages_op_new)
  have P: "\<And>s. list_all ?P (requests_of (new_actions s (snd (?f s)))) \<and>
      requests_of (new_actions s (snd (?f s))) \<noteq> []"
    by (simp add: new_actions_append [OF conjunct1 [OF ListImages_op_new]] Options0_def)
  have s': "snd (ListImages env s) = s'"
    using run by (simp add: snd_ListImages)
  have requests: "list_all ?P (requests_of (new_actions s s')) \<and>
      requests_of (new_actions s s') \<noteq> []"
    by (rule wrapper_requests [OF run' app tok P])
  have decoded: "\<exists>opts r. Results opts = Some ''Images'' \<and>
         http env ''GET''
           (endpoint env @ (if suffix ''v1'' (endpoint env) then ''/images/details'' else ''/images''))
           opts = Inr r \<and>
         images = (case Json r ''Images'' of Many l \<Rightarrow> l | _ \<Rightarrow> [])"
    if ok: "fst (ListImages env s) = (images, None)" for images
  proof -
    from ok run have r: "r = Inr images"
      by (simp add: ListImages_def split: sum.splits)
    from run' app tok show ?thesis
    proof (cases rule: wrapper_runs)
      case once
      with r show ?thesis
        using ListImages_op_result by blast
    next
      case (refresh_failed e s1 m)
      with r show ?thesis
        by simp
    next
      case (twice e s1 s2)
      with r show ?thesis
        using ListImages_op_result by blast
    qed
  qed
  from requests s' decoded show ?thesis
    by simp
qed

lemma CreateNewImage_id:
  assumes "ResponseWithReauth env (CreateNewImage_op env ni) s = (Inr response, s')"
    and "Location response = Inr location"
  shows "CreateNewImage env ni s = (Inr (last (strings_Split (Path location) (CHR ''/''))), s')"
  using assms by (simp add: CreateNewImage_def location_id_last)

text \<open>
  C5: \<^verbatim>\<open>CreateNewImage\<close> issues at least one request, and every request it issues is a
  \<^verbatim>\<open>POST\<close> to \<open>endpoint/images\<close> that accepts only the status 201; when the wrapper
  returns a response with a \<^verbatim>\<open>Location\<close>, the id returned is the last piece of the
  path of the location split on \<open>/\<close>, so a path that ends in \<open>/images/abc123\<close> gives the
  id \<open>abc123\<close>.
\<close>

theorem CreateNewImage_request_and_id:
  "requests_of (new_actions s (snd (CreateNewImage env ni s))) \<noteq> [] \<and>
   list_all (\<lambda>(method, url, opts).
       method = ''POST'' \<and> url = endpoint env @ ''/images'' \<and>
       OkCodes opts = [201] \<and> (\<forall>code. accepted_status opts code \<longleftrightarrow> code = 201))
     (requests_of (new_actions s (snd (CreateNewImage env ni s)))) \<and>
   (\<forall>response s' location.
      ResponseWithReauth env (CreateNewImage_op env ni) s = (Inr response, s') \<and>
      Location response = Inr location \<longrightarrow>
        CreateNewImage env ni s = (Inr (last (strings_Split (Path location) (CHR ''/''))), s') \<and>
        (\<forall>pre. Path location = pre @ ''/images/abc123'' \<longrightarrow>
           CreateNewImage env ni s = (Inr ''abc123'', s')))"
proof -
  let ?P = "\<lambda>(method, url, opts).
       method = ''POST'' \<and> url = endpoint env @ ''/images'' \<and>
       OkCodes opts = [201] \<and> (\<forall>code. accepted_status opts code \<longleftrightarrow> code = 201)"
  let ?f = "CreateNewImage_op env ni"
  obtain r s1 where run: "ResponseWithReauth env ?f s = (r, s1)"
    by (cases "ResponseWithReauth env ?f s")
  have app: "\<And>s. \<exists>acts. trace (snd (?f s)) = trace s @ acts"
    using CreateNewImage_op_new by blast
  have tok: "\<And>s. token (snd (?f s)) = token s"
    by (simp add: CreateNewImage_op_new)
  have P: "\<And>s. list_all ?P (requests_of (new_actions s (snd (?f s)))) \<and>
      requests_of (new_actions s (snd (?f s))) \<noteq> []"
    by (simp add: new_actions_append [OF conjunct1 [OF CreateNewImage_op_new]] Options0_def
        accepted_status_def)
  have s1: "snd (CreateNewImage env ni s) = s1"
    using run by (simp add: snd_CreateNewImage)
  have requests: "list_all ?P (requests_of (new_actions s s1)) \<and>
      requests_of (new_actions s s1) \<noteq> []"
    by (rule wrapper_requests [OF run [unfolded ResponseWithReauth_def] app tok P])
  have ident: "CreateNewImage env ni s = (Inr (last (strings_Split (Path location) (CHR ''/''))), s') \<and>
        (\<forall>pre. Path location = pre @ ''/images/abc123'' \<longrightarrow>
           CreateNewImage env ni s = (Inr ''abc123'', s'))"
    if "ResponseWithReauth env ?f s = (Inr response, s')" "Location response = Inr location"
    for response s' location
  proof -
    have "last (strings_Split (pre @ ''/images/abc123'') (CHR ''/'')) = ''abc123''" for pre
      using last_strings_Split_append [of "CHR ''/''" "''abc123''" "pre @ ''/images''"]
      by simp
    with CreateNewImage_id [OF that] show ?thesis
      by auto
  qed
  from requests s1
  have "requests_of (new_actions s (snd (CreateNewImage env ni s))) \<noteq> [] \<and>
      list_all ?P (requests_of (new_actions s (snd (CreateNewImage env ni s))))"
    by simp
  with ident show ?thesis
    by blast
qed



theorem UploadImageFile_stat_fails_witness:
  "os_Stat (example_env ''http://host/v2'' (Inl ''no such file'') []) ''/tmp/img''
     = Inl ''no such file'' \<and>
   fst (UploadImageFile (example_env ''http://host/v2'' (Inl ''no such file'') [])
          ''abc123'' ''/tmp/img'' \<lparr>token = ''stale'', trace = []\<rparr>)
     = Some (FileAccessError ''no such file'') \<and>
   new_actions \<lparr>token = ''stale'', trace = []\<rparr>
     (snd (UploadImageFile (example_env ''http://host/v2'' (Inl ''no such file'') [])
          ''abc123'' ''/tmp/img'' \<lparr>token = ''stale'', trace = []\<rparr>))
     = [Statted ''/tmp/img'']"
proof -
  have missing: "os_Stat (example_env ''http://host/v2'' (Inl ''no such file'') []) ''/tmp/img''
      = Inl ''no such file''"
    by (simp add: example_env_def)
  from UploadImageFile_stat_fails [OF missing, of "''abc123''" "\<lparr>token = ''stale'', trace = []\<rparr>"]
    missing
  show ?thesis
    by blast
qed

theorem UploadImageFile_request_witness:
  "os_Stat (example_env ''http://host/v2'' (Inr 3) [Data [1, 2, 3]]) ''/tmp/img'' = Inr 3 \<and>
   os_Open (example_env ''http://host/v2'' (Inr 3) [Data [1, 2, 3]]) ''/tmp/img''
     = Inr [Data [1, 2, 3]] \<and>
   requests_of (new_actions \<lparr>token = ''fresh'', trace = []\<rparr>
     (snd (UploadImageFile (example_env ''http://host/v2'' (Inr 3) [Data [1, 2, 3]])
          ''abc123'' ''/tmp/img'' \<lparr>token = ''fresh'', trace = []\<rparr>))) \<noteq> [] \<and>
   UploadImageFile_op (example_env ''http://host/v2'' (Inr 3) [Data [1, 2, 3]])
       ''abc123'' ''/tmp/img'' \<lparr>token = ''fresh'', trace = []\<rparr> =
     (Inr \<lparr>StatusCode = 204,
           Location = Inr \<lparr>Scheme = ''http'', Host = ''host'', Path = ''/v2/images/abc123''\<rparr>,
           Json = (\<lambda>field. if field = ''Images'' then Many [] else Null)\<rparr>,
      \<lparr>token = ''fresh'',
        trace = [Statted ''/tmp/img'', Opened ''/tmp/img'', PipeCreated 0,
          Go_streamFile [Write [1, 2, 3], SetStreamErr None, ClosePipeWriter, CloseFile],
          Requested ''PUT'' ''http://host/v2/images/abc123/file''
            \<lparr>ReqBody = PipeReader 0, ContentType = ''application/octet-stream'',
               ContentLength = 3, MoreHeaders = [(''X-Auth-Token'', ''fresh'')],
               OkCodes = [204], Results = None\<rparr>]\<rparr>)"
proof -
  have size: "os_Stat (example_env ''http://host/v2'' (Inr 3) [Data [1, 2, 3]]) ''/tmp/img'' = Inr 3"
    by (simp add: example_env_def)
  have opened: "os_Open (example_env ''http://host/v2'' (Inr 3) [Data [1, 2, 3]]) ''/tmp/img''
      = Inr [Data [1, 2, 3]]"
    by (simp add: example_env_def)
  note run = UploadImageFile_request [OF size opened, of "\<lparr>token = ''fresh'', trace = []\<rparr>" "''abc123''"]
  from run have issued: "requests_of (new_actions \<lparr>token = ''fresh'', trace = []\<rparr>
     (snd (UploadImageFile (example_env ''http://host/v2'' (Inr 3) [Data [1, 2, 3]])
          ''abc123'' ''/tmp/img'' \<lparr>token = ''fresh'', trace = []\<rparr>))) \<noteq> []"
    by blast
  from run have "UploadImageFile_op (example_env ''http://host/v2'' (Inr 3) [Data [1, 2, 3]])
       ''abc123'' ''/tmp/img'' \<lparr>token = ''fresh'', trace = []\<rparr> =
     (Inr \<lparr>StatusCode = 204,
           Location = Inr \<lparr>Scheme = ''http'', Host = ''host'', Path = ''/v2/images/abc123''\<rparr>,
           Json = (\<lambda>field. if field = ''Images'' then Many [] else Null)\<rparr>,
      \<lparr>token = ''fresh'',
        trace = [Statted ''/tmp/img'', Opened ''/tmp/img'', PipeCreated 0,
          Go_streamFile [Write [1, 2, 3], SetStreamErr None, ClosePipeWriter, CloseFile],
          Requested ''PUT'' ''http://host/v2/images/abc123/file''
            \<lparr>ReqBody = PipeReader 0, ContentType = ''application/octet-stream'',
               ContentLength = 3, MoreHeaders = [(''X-Auth-Token'', ''fresh'')],
               OkCodes = [204], Results = None\<rparr>]\<rparr>)"
    by (simp add: example_env_def example_response_def did_def Options0_def streamFile_def)
  with size opened issued show ?thesis
    by blast
qed

theorem CreateNewImage_request_and_id_witness:
  "Path \<lparr>Scheme = ''http'', Host = ''host'', Path = ''/v2/images/abc123''\<rparr>
     = ''/v2'' @ ''/images/abc123'' \<and>
   fst (CreateNewImage (example_env ''http://host/v2'' (Inr 3) [])
     \<lparr>NewName = ''cirros'', Visibility = ''public'', ContainerFormat = ''bare'',
        DiskFormat = ''raw'', Tags = []\<rparr> \<lparr>token = ''stale'', trace = []\<rparr>) = Inr ''abc123''"
proof -
  let ?env = "example_env ''http://host/v2'' (Inr 3) []"
  let ?ni = "\<lparr>NewName = ''cirros'', Visibility = ''public'', ContainerFormat = ''bare'',
        DiskFormat = ''raw'', Tags = []\<rparr>"
  let ?s = "\<lparr>token = ''stale'', trace = []\<rparr>"
  let ?location = "\<lparr>Scheme = ''http'', Host = ''host'', Path = ''/v2/images/abc123''\<rparr>"
  obtain response s' where run: "ResponseWithReauth ?env (CreateNewImage_op ?env ?ni) ?s
      = (Inr response, s')" and location: "Location response = Inr ?location"
    by (simp add: example_defs CreateNewImage_op_def)
  have path: "Path ?location = ''/v2'' @ ''/images/abc123''"
    by simp
  from CreateNewImage_request_and_id [of ?s ?env ?ni] run location path
  have "CreateNewImage ?env ?ni ?s = (Inr ''abc123'', s')"
    by blast
  with path show ?thesis
    by simp
qed

theorem ListImages_request_witness:
  "fst (ListImages (example_env ''http://host/v1'' (Inr 3) []) \<lparr>token = ''stale'', trace = []\<rparr>)
     = ([], None) \<and>
   (\<exists>opts r. Results opts = Some ''Images'' \<and>
      http (example_env ''http://host/v1'' (Inr 3) []) ''GET''
        (endpoint (example_env ''http://host/v1'' (Inr 3) []) @
           (if suffix ''v1'' (endpoint (example_env ''http://host/v1'' (Inr 3) []))
            then ''/images/details'' else ''/images''))
        opts = Inr r \<and>
      [] = (case Json r ''Images'' of Many l \<Rightarrow> l | _ \<Rightarrow> []))"
proof -
  have listed: "fst (ListImages (example_env ''http://host/v1'' (Inr 3) [])
      \<lparr>token = ''stale'', trace = []\<rparr>) = ([], None)"
    by (simp add: ListImages_def ListImages_op_def example_defs strings_HasSuffix_def)
  from ListImages_request [of "\<lparr>token = ''stale'', trace = []\<rparr>"
      "example_env ''http://host/v1'' (Inr 3) []"] listed
  show ?thesis
    by blast
qed


end
